theory Spec2Isabelle
  imports Complex_Main "HOL-Library.Sublist"
begin

section \<open>Python values read from the teleporter archive\<close>

text \<open>
  \<^verbatim>\<open>convert_config.py\<close> works on what \<^verbatim>\<open>json.load\<close> returns: \<^verbatim>\<open>None\<close>, booleans,
  integers, floats, strings, lists and dicts. A float is kept by its exact value (every
  finite double is a rational) or as one of the three special values Python's parser
  accepts; only its comparison with \<open>0\<close> and \<open>1\<close> is ever used. A dict is kept as
  its items in insertion order; the keys of a Python dict are pairwise distinct.
\<close>

datatype pyfloat = Finite rat | PosInfinity | NegInfinity | NaN

datatype json =
    JNull
  | JBool bool
  | JInt int
  | JFloat pyfloat
  | JStr string
  | JArr "json list"
  | JObj "(string \<times> json) list"

text \<open>The exceptions the program can end with, by their Python names.\<close>

datatype error =
    SystemExit int
  | TarError
  | FileNotFoundError
  | JSONDecodeError
  | KeyError string
  | TypeError
  | AttributeError
  | LocationParseError

text \<open>Truthiness, as \<^verbatim>\<open>if e["enabled"]\<close> tests it.\<close>

fun py_truthy :: "json \<Rightarrow> bool" where
  "py_truthy JNull = False"
| "py_truthy (JBool b) = b"
| "py_truthy (JInt i) = (i \<noteq> 0)"
| "py_truthy (JFloat f) = (f \<noteq> Finite 0)"
| "py_truthy (JStr s) = (s \<noteq> [])"
| "py_truthy (JArr xs) = (xs \<noteq> [])"
| "py_truthy (JObj kvs) = (kvs \<noteq> [])"

text \<open>
  Python's \<^verbatim>\<open>v == n\<close> for an integer literal \<open>n\<close>: numbers compare by value, and a
  boolean is the integer \<open>0\<close> or \<open>1\<close>; nothing else equals an integer.
\<close>

fun py_eq_int :: "json \<Rightarrow> int \<Rightarrow> bool" where
  "py_eq_int (JBool b) n = ((if b then 1 else 0) = n)"
| "py_eq_int (JInt i) n = (i = n)"
| "py_eq_int (JFloat f) n = (f = Finite (of_int n))"
| "py_eq_int JNull n = False"
| "py_eq_int (JStr s) n = False"
| "py_eq_int (JArr xs) n = False"
| "py_eq_int (JObj kvs) n = False"

text \<open>
  \<^verbatim>\<open>e[key]\<close> with a string key: a dict looks the key up and raises \<^verbatim>\<open>KeyError\<close>
  when it is missing; every other value raises \<^verbatim>\<open>TypeError\<close>.
\<close>

fun subscript :: "json \<Rightarrow> string \<Rightarrow> error + json" where
  "subscript (JObj kvs) k = (case map_of kvs k of None \<Rightarrow> Inl (KeyError k) | Some v \<Rightarrow> Inr v)"
| "subscript JNull k = Inl TypeError"
| "subscript (JBool b) k = Inl TypeError"
| "subscript (JInt i) k = Inl TypeError"
| "subscript (JFloat f) k = Inl TypeError"
| "subscript (JStr s) k = Inl TypeError"
| "subscript (JArr xs) k = Inl TypeError"

text \<open>
  \<^verbatim>\<open>for e in v\<close>: a list yields its elements, a dict its keys, a string its
  characters as one-character strings; nothing else is iterable.
\<close>

fun py_iter :: "json \<Rightarrow> error + json list" where
  "py_iter (JArr xs) = Inr xs"
| "py_iter (JObj kvs) = Inr (map (\<lambda>kv. JStr (fst kv)) kvs)"
| "py_iter (JStr s) = Inr (map (\<lambda>c. JStr [c]) s)"
| "py_iter JNull = Inl TypeError"
| "py_iter (JBool b) = Inl TypeError"
| "py_iter (JInt i) = Inl TypeError"
| "py_iter (JFloat f) = Inl TypeError"

text \<open>
  A replacement field \<^verbatim>\<open>{v}\<close> of an f-string: a string is inserted as it is; for any
  other value Python inserts \<^verbatim>\<open>str(v)\<close>, taken here as the parameter \<open>str_of\<close>.
\<close>

fun py_format :: "(json \<Rightarrow> string) \<Rightarrow> json \<Rightarrow> string" where
  "py_format str_of (JStr s) = s"
| "py_format str_of v = str_of v"

section \<open>String replacement\<close>

text \<open>
  \<^verbatim>\<open>s.replace(old, new)\<close>: one scan from the left; where \<open>old\<close> starts, \<open>new\<close> is
  emitted and the scan goes on after the occurrence, so occurrences do not overlap and
  the text already emitted is not scanned again. With an empty \<open>old\<close> Python puts
  \<open>new\<close> before every character and at the end.
\<close>

function scan_replace :: "string \<Rightarrow> string \<Rightarrow> string \<Rightarrow> string" where
  "scan_replace old new [] = []"
| "scan_replace old new (c # cs) =
     (if old \<noteq> [] \<and> prefix old (c # cs)
      then new @ scan_replace old new (drop (length old) (c # cs))
      else c # scan_replace old new cs)"
  by pat_completeness auto
termination
  by (relation "measure (\<lambda>(old, new, s). length s)") auto

definition str_replace :: "string \<Rightarrow> string \<Rightarrow> string \<Rightarrow> string" where
  "str_replace s old new =
     (if old = [] then new @ concat (map (\<lambda>c. c # new) s) else scan_replace old new s)"

text \<open>The Python literal \<^verbatim>\<open>"\\/"\<close>: a backslash and a slash.\<close>

definition backslash_slash :: string where
  "backslash_slash = [CHR 0x5C, CHR ''/'']"

section \<open>The world the program runs in\<close>

text \<open>
  A file of the extracted archive either parses as JSON or does not. A directory maps
  file names to files; the file system maps the paths of directories to directories.
  The program writes text to standard output.
\<close>

datatype file_content = Unparseable | Parsed json

type_synonym directory = "string \<rightharpoonup> file_content"

record world =
  dirs :: "string \<rightharpoonup> directory"
  stdout :: string

text \<open>
  What the program does not decide: the path \<^verbatim>\<open>tempfile.mkdtemp\<close> returns, what
  \<^verbatim>\<open>tarfile.open\<close> and \<^verbatim>\<open>extractall\<close> do with an archive path (an exception, or the
  files they extract), what \<^verbatim>\<open>requests.head\<close> does with a URL, and \<^verbatim>\<open>str\<close> on values
  that are not strings. \<^verbatim>\<open>requests.head\<close> returns a response with its status code, or
  raises a \<^verbatim>\<open>requests.exceptions.RequestException\<close>, or raises an exception of another
  class: urllib3's \<^verbatim>\<open>LocationParseError\<close>, which is not a \<^verbatim>\<open>RequestException\<close>, reaches
  the caller for a URL whose host does not parse.
\<close>

datatype probe_outcome = Response int | RequestException | Raises error

record env =
  mkdtemp :: string
  tar_extract :: "string \<Rightarrow> error + directory"
  requests_head :: "string \<Rightarrow> probe_outcome"
  py_str :: "json \<Rightarrow> string"

section \<open>Archive extraction\<close>

definition unzip_tar_gz :: "env \<Rightarrow> string \<Rightarrow> world \<Rightarrow> (error + string) \<times> world" where
  "unzip_tar_gz ev archive_path w =
     (let temp_dir = mkdtemp ev;
          w1 = w\<lparr>dirs := (dirs w)(temp_dir \<mapsto> Map.empty)\<rparr>
      in case tar_extract ev archive_path of
           Inl err \<Rightarrow> (Inl err, w1)
         | Inr files \<Rightarrow> (Inr temp_dir, w1\<lparr>dirs := (dirs w1)(temp_dir \<mapsto> files)\<rparr>))"

text \<open>\<^verbatim>\<open>shutil.rmtree\<close> removes the directory, and raises when there is none.\<close>

definition rmtree :: "string \<Rightarrow> world \<Rightarrow> (error + unit) \<times> world" where
  "rmtree temp_dir w =
     (case dirs w temp_dir of
        None \<Rightarrow> (Inl FileNotFoundError, w)
      | Some d \<Rightarrow> (Inr (), w\<lparr>dirs := (dirs w)(temp_dir := None)\<rparr>))"

section \<open>List readers\<close>

text \<open>\<^verbatim>\<open>with open(os.path.join(temp_dir, name)) as f: json.load(f)\<close>\<close>

definition load_json :: "world \<Rightarrow> string \<Rightarrow> string \<Rightarrow> error + json" where
  "load_json w temp_dir name =
     (case dirs w temp_dir of
        None \<Rightarrow> Inl FileNotFoundError
      | Some d \<Rightarrow>
          (case d name of
             None \<Rightarrow> Inl FileNotFoundError
           | Some Unparseable \<Rightarrow> Inl JSONDecodeError
           | Some (Parsed j) \<Rightarrow> Inr j))"

record adlist_entry =
  address :: json
  comment :: json

record domain_entry =
  domain :: json
  comment :: json

text \<open>
  The comprehension of \<^verbatim>\<open>read_adlist\<close>: for each record in order, the condition
  \<^verbatim>\<open>e["enabled"]\<close> is evaluated first, and \<^verbatim>\<open>e["address"]\<close> and \<^verbatim>\<open>e["comment"]\<close> only
  when it is truthy. The first exception ends the run.
\<close>

fun adlist_records :: "json list \<Rightarrow> error + adlist_entry list" where
  "adlist_records [] = Inr []"
| "adlist_records (e # es) =
     (case subscript e ''enabled'' of
        Inl err \<Rightarrow> Inl err
      | Inr en \<Rightarrow>
          if py_truthy en then
            (case subscript e ''address'' of
               Inl err \<Rightarrow> Inl err
             | Inr a \<Rightarrow>
                 (case subscript e ''comment'' of
                    Inl err \<Rightarrow> Inl err
                  | Inr c \<Rightarrow>
                      (case adlist_records es of
                         Inl err \<Rightarrow> Inl err
                       | Inr out \<Rightarrow> Inr (\<lparr>address = a, comment = c\<rparr> # out))))
          else adlist_records es)"

definition read_adlist :: "world \<Rightarrow> string \<Rightarrow> error + adlist_entry list" where
  "read_adlist w temp_dir =
     (case load_json w temp_dir ''adlist.json'' of
        Inl err \<Rightarrow> Inl err
      | Inr adlist \<Rightarrow>
          (case py_iter adlist of Inl err \<Rightarrow> Inl err | Inr es \<Rightarrow> adlist_records es))"

text \<open>
  The comprehension shared, word for word, by the four domain-list readers: the
  condition is \<^verbatim>\<open>e["enabled"] == 1\<close>.
\<close>

fun domain_records :: "json list \<Rightarrow> error + domain_entry list" where
  "domain_records [] = Inr []"
| "domain_records (e # es) =
     (case subscript e ''enabled'' of
        Inl err \<Rightarrow> Inl err
      | Inr en \<Rightarrow>
          if py_eq_int en 1 then
            (case subscript e ''domain'' of
               Inl err \<Rightarrow> Inl err
             | Inr d \<Rightarrow>
                 (case subscript e ''comment'' of
                    Inl err \<Rightarrow> Inl err
                  | Inr c \<Rightarrow>
                      (case domain_records es of
                         Inl err \<Rightarrow> Inl err
                       | Inr out \<Rightarrow> Inr (\<lparr>domain = d, comment = c\<rparr> # out))))
          else domain_records es)"

definition read_domain_list :: "string \<Rightarrow> world \<Rightarrow> string \<Rightarrow> error + domain_entry list" where
  "read_domain_list name w temp_dir =
     (case load_json w temp_dir name of
        Inl err \<Rightarrow> Inl err
      | Inr l \<Rightarrow>
          (case py_iter l of Inl err \<Rightarrow> Inl err | Inr es \<Rightarrow> domain_records es))"

definition read_whitelist_exact :: "world \<Rightarrow> string \<Rightarrow> error + domain_entry list" where
  "read_whitelist_exact = read_domain_list ''whitelist.exact.json''"

definition read_blacklist_exact :: "world \<Rightarrow> string \<Rightarrow> error + domain_entry list" where
  "read_blacklist_exact = read_domain_list ''blacklist.exact.json''"

definition read_whitelist_regex :: "world \<Rightarrow> string \<Rightarrow> error + domain_entry list" where
  "read_whitelist_regex = read_domain_list ''whitelist.regex.json''"

definition read_blacklist_regex :: "world \<Rightarrow> string \<Rightarrow> error + domain_entry list" where
  "read_blacklist_regex = read_domain_list ''blacklist.regex.json''"

section \<open>Liveness filter\<close>

text \<open>
  \<^verbatim>\<open>url.replace\<close> exists on strings only, and is called before the \<^verbatim>\<open>try\<close>; the
  handler turns a \<^verbatim>\<open>RequestException\<close> into \<^verbatim>\<open>False\<close>, and names no other class, so
  any other exception of \<^verbatim>\<open>requests.head\<close> leaves \<^verbatim>\<open>test_url\<close>. The comprehension of
  \<^verbatim>\<open>filter_working_adlist\<close> ends with the first exception.
\<close>

definition test_url :: "(string \<Rightarrow> probe_outcome) \<Rightarrow> json \<Rightarrow> error + bool" where
  "test_url head url =
     (case url of
        JStr s \<Rightarrow>
          (let new_url = str_replace s backslash_slash ''/''
           in case head new_url of
                Response status_code \<Rightarrow> Inr (status_code = 200)
              | RequestException \<Rightarrow> Inr False
              | Raises err \<Rightarrow> Inl err)
      | _ \<Rightarrow> Inl AttributeError)"

fun filter_working_adlist ::
  "(string \<Rightarrow> probe_outcome) \<Rightarrow> adlist_entry list \<Rightarrow> error + adlist_entry list" where
  "filter_working_adlist head [] = Inr []"
| "filter_working_adlist head (e # es) =
     (case test_url head (address e) of
        Inl err \<Rightarrow> Inl err
      | Inr ok \<Rightarrow>
          (case filter_working_adlist head es of
             Inl err \<Rightarrow> Inl err
           | Inr out \<Rightarrow> Inr (if ok then e # out else out)))"

section \<open>Rule builder\<close>

definition build_custom_filtering_rules ::
  "(json \<Rightarrow> string) \<Rightarrow> domain_entry list \<Rightarrow> domain_entry list \<Rightarrow> domain_entry list \<Rightarrow>
   domain_entry list \<Rightarrow> string" where
  "build_custom_filtering_rules str_of whitelist_exact blacklist_exact whitelist_regex
       blacklist_regex =
     (let textblock = [];
          textblock = textblock @ ''! Whitelist\<newline>'';
          textblock = foldl (\<lambda>tb entry. tb @ ''# '' @ py_format str_of (comment entry)
              @ ''\<newline>@@|'' @ py_format str_of (domain entry) @ ''^\<newline>'')
            textblock whitelist_exact;
          textblock = foldl (\<lambda>tb entry. tb @ ''# '' @ py_format str_of (comment entry)
              @ ''\<newline>@@/'' @ py_format str_of (domain entry) @ ''/\<newline>'')
            textblock whitelist_regex;
          textblock = textblock @ ''\<newline>\<newline>'';
          textblock = textblock @ ''! Blacklist\<newline>'';
          textblock = foldl (\<lambda>tb entry. tb @ ''# '' @ py_format str_of (comment entry)
              @ ''\<newline>|'' @ py_format str_of (domain entry) @ ''^\<newline>'')
            textblock blacklist_exact;
          textblock = foldl (\<lambda>tb entry. tb @ ''# '' @ py_format str_of (comment entry)
              @ ''\<newline>/'' @ py_format str_of (domain entry) @ ''/\<newline>'')
            textblock blacklist_regex
      in textblock)"

section \<open>Report and main\<close>

text \<open>\<^verbatim>\<open>print(s)\<close> writes \<open>s\<close> and a newline.\<close>

definition print :: "string \<Rightarrow> world \<Rightarrow> world" where
  "print s w = w\<lparr>stdout := stdout w @ s @ ''\<newline>''\<rparr>"

fun print_adlist :: "(json \<Rightarrow> string) \<Rightarrow> adlist_entry list \<Rightarrow> world \<Rightarrow> (error + unit) \<times> world" where
  "print_adlist str_of [] w = (Inr (), w)"
| "print_adlist str_of (addlist_entry # es) w =
     (let w1 = print (''Name: '' @ py_format str_of (adlist_entry.comment addlist_entry)) w
      in case address addlist_entry of
           JStr s \<Rightarrow>
             (let w2 = print (''URL: '' @ str_replace s backslash_slash ''/'') w1;
                  w3 = print ''\<newline>\<newline>'' w2
              in print_adlist str_of es w3)
         | _ \<Rightarrow> (Inl AttributeError, w1))"

text \<open>The body of the \<^verbatim>\<open>try\<close> block of \<^verbatim>\<open>main\<close>.\<close>

definition main_body :: "env \<Rightarrow> string \<Rightarrow> world \<Rightarrow> (error + unit) \<times> world" where
  "main_body ev temp_dir w =
     (case read_adlist w temp_dir of
        Inl err \<Rightarrow> (Inl err, w)
      | Inr adlist0 \<Rightarrow>
     (case filter_working_adlist (requests_head ev) adlist0 of
        Inl err \<Rightarrow> (Inl err, w)
      | Inr adlist \<Rightarrow>
     (case read_whitelist_exact w temp_dir of
        Inl err \<Rightarrow> (Inl err, w)
      | Inr whitelist_exact \<Rightarrow>
     (case read_blacklist_exact w temp_dir of
        Inl err \<Rightarrow> (Inl err, w)
      | Inr blacklist_exact \<Rightarrow>
     (case read_whitelist_regex w temp_dir of
        Inl err \<Rightarrow> (Inl err, w)
      | Inr whitelist_regex \<Rightarrow>
     (case read_blacklist_regex w temp_dir of
        Inl err \<Rightarrow> (Inl err, w)
      | Inr blacklist_regex \<Rightarrow>
     (let custom_filtering_rules =
            build_custom_filtering_rules (py_str ev) whitelist_exact blacklist_exact
              whitelist_regex blacklist_regex;
          w1 = print
            ''Add each of the following blocklist to the DNS blocklists page:\<newline>\<newline>'' w
      in case print_adlist (py_str ev) adlist w1 of
           (Inl err, w2) \<Rightarrow> (Inl err, w2)
         | (Inr u, w2) \<Rightarrow>
             (let w3 = print
                    ''Copy past this in the Custom filtering rules field:\<newline>\<newline>'' w2;
                  w4 = print custom_filtering_rules w3
              in (Inr (), w4)))))))))"

text \<open>
  \<^verbatim>\<open>main\<close>: the usage check, the extraction, then the \<^verbatim>\<open>try\<close> block with its
  \<^verbatim>\<open>finally: shutil.rmtree(temp_dir)\<close>. The call of \<^verbatim>\<open>unzip_tar_gz\<close> stands before
  the \<^verbatim>\<open>try\<close>.
\<close>

definition main :: "env \<Rightarrow> string list \<Rightarrow> world \<Rightarrow> (error + unit) \<times> world" where
  "main ev argv w =
     (if length argv \<noteq> 2
      then (Inl (SystemExit 1),
            print ''Usage: python3 convert_config.py <teleporter archive path>'' w)
      else
        (let archive_path = argv ! 1
         in case unzip_tar_gz ev archive_path w of
              (Inl err, w1) \<Rightarrow> (Inl err, w1)
            | (Inr temp_dir, w1) \<Rightarrow>
                (case main_body ev temp_dir w1 of
                   (r, w2) \<Rightarrow>
                     (case rmtree temp_dir w2 of
                        (Inl err, w3) \<Rightarrow> (Inl err, w3)
                      | (Inr u, w3) \<Rightarrow> (r, w3)))))"

section \<open>Notions used to state the properties\<close>

text \<open>
  The lines of a text: every newline ends a line, and what follows the last newline is
  the last line. \<open>unlines\<close> is the text whose every line is ended by a newline.
\<close>

fun lines_of :: "string \<Rightarrow> string list" where
  "lines_of [] = [[]]"
| "lines_of (c # cs) =
     (if c = CHR ''\<newline>'' then [] # lines_of cs
      else (case lines_of cs of l # ls \<Rightarrow> (c # l) # ls | [] \<Rightarrow> [[c]]))"

definition unlines :: "string list \<Rightarrow> string" where
  "unlines ls = concat (map (\<lambda>l. l @ ''\<newline>'') ls)"

text \<open>
  The block of section 4.4 of the specification, as a list of lines, with the number of
  blank lines between the whitelist part and the line \<^verbatim>\<open>! Blacklist\<close> as a parameter:
  the template of the specification shows one.
\<close>

definition rule_block ::
  "nat \<Rightarrow> (json \<Rightarrow> string) \<Rightarrow> domain_entry list \<Rightarrow> domain_entry list \<Rightarrow> domain_entry list \<Rightarrow>
   domain_entry list \<Rightarrow> string list" where
  "rule_block blanks str_of whitelist_exact blacklist_exact whitelist_regex blacklist_regex =
     [''! Whitelist'']
     @ concat (map (\<lambda>e. [''# '' @ py_format str_of (comment e),
                           ''@@|'' @ py_format str_of (domain e) @ ''^'']) whitelist_exact)
     @ concat (map (\<lambda>e. [''# '' @ py_format str_of (comment e),
                           ''@@/'' @ py_format str_of (domain e) @ ''/'']) whitelist_regex)
     @ replicate blanks []
     @ [''! Blacklist'']
     @ concat (map (\<lambda>e. [''# '' @ py_format str_of (comment e),
                           ''|'' @ py_format str_of (domain e) @ ''^'']) blacklist_exact)
     @ concat (map (\<lambda>e. [''# '' @ py_format str_of (comment e),
                           ''/'' @ py_format str_of (domain e) @ ''/'']) blacklist_regex)"

text \<open>
  The probe of an entry succeeds: its address is a string, and the request to the
  normalized address returns the status code 200.
\<close>

definition probe_ok :: "(string \<Rightarrow> probe_outcome) \<Rightarrow> adlist_entry \<Rightarrow> bool" where
  "probe_ok head e =
     (case address e of
        JStr s \<Rightarrow> head (str_replace s backslash_slash ''/'') = Response 200
      | _ \<Rightarrow> False)"

text \<open>
  A source record, as the items of its dict, passes the test of \<^verbatim>\<open>read_adlist\<close>
  (its \<^verbatim>\<open>enabled\<close> value is truthy), or the test of the domain-list readers (its
  \<^verbatim>\<open>enabled\<close> value compares equal to \<open>1\<close>).
\<close>

definition enabled_truthy :: "(string \<times> json) list \<Rightarrow> bool" where
  "enabled_truthy r = (case map_of r ''enabled'' of Some en \<Rightarrow> py_truthy en | None \<Rightarrow> False)"

definition enabled_eq_1 :: "(string \<times> json) list \<Rightarrow> bool" where
  "enabled_eq_1 r = (case map_of r ''enabled'' of Some en \<Rightarrow> py_eq_int en 1 | None \<Rightarrow> False)"

text \<open>
  The records on which a reader raises \<^verbatim>\<open>KeyError\<close>: \<^verbatim>\<open>enabled\<close> is missing, or the
  record passes the reader's test and its address (or domain) or its comment is missing.
\<close>

definition adlist_record_raises :: "(string \<times> json) list \<Rightarrow> bool" where
  "adlist_record_raises r =
     (case map_of r ''enabled'' of
        None \<Rightarrow> True
      | Some en \<Rightarrow> py_truthy en \<and> (map_of r ''address'' = None \<or> map_of r ''comment'' = None))"

definition domain_record_raises :: "(string \<times> json) list \<Rightarrow> bool" where
  "domain_record_raises r =
     (case map_of r ''enabled'' of
        None \<Rightarrow> True
      | Some en \<Rightarrow> py_eq_int en 1 \<and> (map_of r ''domain'' = None \<or> map_of r ''comment'' = None))"

text \<open>The four domain-list readers, each with the name of the file it opens.\<close>

definition domain_readers :: "((world \<Rightarrow> string \<Rightarrow> error + domain_entry list) \<times> string) list" where
  "domain_readers =
     [(read_whitelist_exact, ''whitelist.exact.json''),
      (read_blacklist_exact, ''blacklist.exact.json''),
      (read_whitelist_regex, ''whitelist.regex.json''),
      (read_blacklist_regex, ''blacklist.regex.json'')]"

section \<open>Sample inputs\<close>

text \<open>
  An address as the teleporter archive stores it, with escaped slashes; a probe that
  finds one URL alive, one redirected and every other unreachable; a URL whose host has
  a label of 64 characters, one more than a host name allows, and a probe that raises
  \<^verbatim>\<open>LocationParseError\<close> on it; an extracted archive with one file that does not parse
  and one record without a comment.
\<close>

definition escaped_url :: string where
  "escaped_url = ''https:'' @ backslash_slash @ backslash_slash @ ''example.com''
     @ backslash_slash @ ''list.txt''"

definition sample_head :: "string \<Rightarrow> probe_outcome" where
  "sample_head u =
     (if u = ''https://example.com/list.txt'' then Response 200
      else if u = ''https://moved.example/'' then Response 301
      else RequestException)"

definition long_label_url :: string where
  "long_label_url =
     ''http://aaaaaaaaaaaaaaaaaaaaaaaaaaaaaaaaaaaaaaaaaaaaaaaaaaaaaaaaaaaaaaaa.example/''"

definition raising_head :: "string \<Rightarrow> probe_outcome" where
  "raising_head u =
     (if u = long_label_url then Raises LocationParseError else sample_head u)"

definition sample_adlist :: "adlist_entry list" where
  "sample_adlist =
     [\<lparr>address = JStr escaped_url, comment = JStr ''live''\<rparr>,
      \<lparr>address = JStr ''https://moved.example/'', comment = JStr ''moved''\<rparr>,
      \<lparr>address = JStr ''https://gone.example/'', comment = JNull\<rparr>]"

definition sample_adlist_records :: "(string \<times> json) list list" where
  "sample_adlist_records =
     [[(''id'', JInt 1), (''address'', JStr escaped_url), (''enabled'', JBool True),
       (''comment'', JStr ''live'')],
      [(''id'', JInt 2), (''address'', JStr ''https://off.example/''),
       (''enabled'', JBool False), (''comment'', JStr ''off'')]]"

definition sample_whitelist_records :: "(string \<times> json) list list" where
  "sample_whitelist_records =
     [[(''domain'', JStr ''good.com''), (''enabled'', JInt 1), (''comment'', JStr ''ok'')],
      [(''domain'', JStr ''off.com''), (''enabled'', JInt 0), (''comment'', JStr ''no'')]]"

definition sample_blacklist_records :: "(string \<times> json) list list" where
  "sample_blacklist_records = [[(''domain'', JStr ''bad.*''), (''enabled'', JInt 1)]]"

definition sample_files :: directory where
  "sample_files =
     [''adlist.json'' \<mapsto> Parsed (JArr (map JObj sample_adlist_records)),
      ''whitelist.exact.json'' \<mapsto> Parsed (JArr (map JObj sample_whitelist_records)),
      ''blacklist.exact.json'' \<mapsto> Parsed (JArr []),
      ''whitelist.regex.json'' \<mapsto> Unparseable,
      ''blacklist.regex.json'' \<mapsto> Parsed (JArr (map JObj sample_blacklist_records))]"

definition sample_world :: world where
  "sample_world = \<lparr>dirs = [''/tmp/tmpabc'' \<mapsto> sample_files], stdout = []\<rparr>"

definition sample_env :: env where
  "sample_env =
     \<lparr>mkdtemp = ''/tmp/tmpabc'',
      tar_extract = (\<lambda>p. if p = ''no_adlist.tar.gz''
         then Inr [''whitelist.exact.json'' \<mapsto> Parsed (JArr [])] else Inl TarError),
      requests_head = sample_head,
      py_str = (\<lambda>v. ''None'')\<rparr>"

section \<open>The rule builder's output\<close>

lemma foldl_append_concat: "foldl (\<lambda>tb e. tb @ f e) acc xs = acc @ concat (map f xs)"
  by (induction xs arbitrary: acc) simp_all

text \<open>The loops of the builder, as one concatenation.\<close>

lemma build_closed:
  "build_custom_filtering_rules str_of we be wr br =
     ''! Whitelist\<newline>''
     @ concat (map (\<lambda>e. ''# '' @ py_format str_of (comment e) @ ''\<newline>@@|''
                      @ py_format str_of (domain e) @ ''^\<newline>'') we)
     @ concat (map (\<lambda>e. ''# '' @ py_format str_of (comment e) @ ''\<newline>@@/''
                      @ py_format str_of (domain e) @ ''/\<newline>'') wr)
     @ ''\<newline>\<newline>! Blacklist\<newline>''
     @ concat (map (\<lambda>e. ''# '' @ py_format str_of (comment e) @ ''\<newline>|''
                      @ py_format str_of (domain e) @ ''^\<newline>'') be)
     @ concat (map (\<lambda>e. ''# '' @ py_format str_of (comment e) @ ''\<newline>/''
                      @ py_format str_of (domain e) @ ''/\<newline>'') br)"
  by (simp add: build_custom_filtering_rules_def foldl_append_concat)

lemma unlines_append: "unlines (a @ b) = unlines a @ unlines b"
  by (simp add: unlines_def)

lemma unlines_Nil: "unlines [] = []"
  by (simp add: unlines_def)

lemma unlines_Cons: "unlines (l # ls) = l @ CHR ''\<newline>'' # unlines ls"
  by (simp add: unlines_def)

lemma unlines_pairs:
  "unlines (concat (map (\<lambda>e. [f e, g e]) xs))
     = concat (map (\<lambda>e. f e @ CHR ''\<newline>'' # g e @ ''\<newline>'') xs)"
  by (induction xs) (simp_all add: unlines_Nil unlines_Cons)

text \<open>
  C1, as the code has it: for all four input sequences the builder returns the line
  \<^verbatim>\<open>! Whitelist\<close>, the two lines \<^verbatim>\<open># <comment>\<close> and \<^verbatim>\<open>@@|<domain>^\<close> of each
  whitelist-exact entry in order, the two lines \<^verbatim>\<open># <comment>\<close> and \<^verbatim>\<open>@@/<domain>/\<close> of
  each whitelist-regex entry, then two blank lines, the line \<^verbatim>\<open>! Blacklist\<close>, the two
  lines \<^verbatim>\<open># <comment>\<close> and \<^verbatim>\<open>|<domain>^\<close> of each blacklist-exact entry and the two
  lines \<^verbatim>\<open># <comment>\<close> and \<^verbatim>\<open>/<domain>/\<close> of each blacklist-regex entry, every line
  ended by a newline.
\<close>

theorem build_custom_filtering_rules_block:
  "build_custom_filtering_rules str_of whitelist_exact blacklist_exact whitelist_regex
       blacklist_regex
     = unlines (rule_block 2 str_of whitelist_exact blacklist_exact whitelist_regex
         blacklist_regex)"
  unfolding build_closed rule_block_def
  by (simp add: unlines_append unlines_pairs unlines_Nil unlines_Cons numeral_2_eq_2)

text \<open>
  C1 as stated, with a single blank line before \<^verbatim>\<open>! Blacklist\<close>, fails already on
  four empty sequences: the builder appends the two newlines \<^verbatim>\<open>"\n\n"\<close> after the
  whitelist part, which are two blank lines.
\<close>

theorem build_custom_filtering_rules_single_blank_counterexample:
  "build_custom_filtering_rules (\<lambda>v. []) [] [] [] []
     \<noteq> unlines (rule_block 1 (\<lambda>v. []) [] [] [] [])"
  by (simp add: build_custom_filtering_rules_def rule_block_def unlines_def)

text \<open>
  C10: on four empty sequences the builder returns the skeleton
  \<^verbatim>\<open>"! Whitelist\n\n\n! Blacklist\n"\<close>: the two header lines with two blank lines
  between them, and no entry line.
\<close>

theorem build_custom_filtering_rules_empty:
  "build_custom_filtering_rules str_of [] [] [] []
     = ''! Whitelist\<newline>\<newline>\<newline>! Blacklist\<newline>''"
  by (simp add: build_custom_filtering_rules_def)

lemma lines_of_nonempty: "lines_of s \<noteq> []"
  by (induction s) (auto split: list.splits)

lemma lines_of_append_newline:
  "lines_of (a @ CHR ''\<newline>'' # b) = lines_of a @ lines_of b"
proof (induction a)
  case Nil
  show ?case by simp
next
  case (Cons c a)
  show ?case
  proof (cases "c = CHR ''\<newline>''")
    case True
    with Cons show ?thesis by simp
  next
    case False
    obtain l ls where "lines_of a = l # ls"
      using lines_of_nonempty [of a] by (cases "lines_of a") auto
    with False Cons show ?thesis by simp
  qed
qed

lemma lines_of_whitelist: "lines_of ''! Whitelist'' = [''! Whitelist'']"
  by simp

lemma lines_of_blacklist: "lines_of ''! Blacklist'' = [''! Blacklist'']"
  by simp

lemma lines_of_frame:
  "lines_of (''! Whitelist'' @ CHR ''\<newline>'' # (a @ CHR ''\<newline>'' #
       ([] @ CHR ''\<newline>'' # (''! Blacklist'' @ CHR ''\<newline>'' # b))))
     = [''! Whitelist''] @ lines_of a @ [[], ''! Blacklist''] @ lines_of b"
  unfolding lines_of_append_newline lines_of_whitelist lines_of_blacklist
  by (simp del: lines_of.simps add: lines_of.simps(1))

text \<open>
  Whatever the entries hold, newlines included, the first line of the output is
  \<^verbatim>\<open>! Whitelist\<close> and a later line is \<^verbatim>\<open>! Blacklist\<close>, after a blank line.
\<close>

lemma build_lines:
  "\<exists>wl bl. lines_of (build_custom_filtering_rules str_of we be wr br) =
     [''! Whitelist''] @ wl @ [[], ''! Blacklist''] @ bl"
proof -
  have "\<exists>a b. build_custom_filtering_rules str_of we be wr br =
    ''! Whitelist'' @ CHR ''\<newline>'' # (a @ CHR ''\<newline>'' #
       ([] @ CHR ''\<newline>'' # (''! Blacklist'' @ CHR ''\<newline>'' # b)))"
    unfolding build_closed
    by (intro exI [of _ "concat (map f we) @ concat (map g wr)" for f g] exI)
       (simp del: lines_of.simps)
  then obtain a b where "build_custom_filtering_rules str_of we be wr br =
    ''! Whitelist'' @ CHR ''\<newline>'' # (a @ CHR ''\<newline>'' #
       ([] @ CHR ''\<newline>'' # (''! Blacklist'' @ CHR ''\<newline>'' # b)))"
    by blast
  then show ?thesis
    using lines_of_frame [of a b]
    by (intro exI [of _ "lines_of a"] exI [of _ "lines_of b"]) (simp only:)
qed

text \<open>
  C8: the builder's output is a function of its four input sequences (two calls on
  identical inputs return the same string), and among the lines of the output the
  line \<^verbatim>\<open>! Whitelist\<close> stands before the line \<^verbatim>\<open>! Blacklist\<close>.
\<close>

theorem build_custom_filtering_rules_deterministic:
  "(we = we' \<and> be = be' \<and> wr = wr' \<and> br = br' \<longrightarrow>
      build_custom_filtering_rules str_of we be wr br
        = build_custom_filtering_rules str_of we' be' wr' br')
   \<and> (\<exists>i j. i < j \<and> j < length (lines_of (build_custom_filtering_rules str_of we be wr br))
        \<and> lines_of (build_custom_filtering_rules str_of we be wr br) ! i = ''! Whitelist''
        \<and> lines_of (build_custom_filtering_rules str_of we be wr br) ! j = ''! Blacklist'')"
proof -
  obtain wl bl where L: "lines_of (build_custom_filtering_rules str_of we be wr br) =
     [''! Whitelist''] @ wl @ [[], ''! Blacklist''] @ bl"
    using build_lines by blast
  let ?j = "Suc (Suc (length wl))"
  have "0 < ?j" by simp
  moreover have "?j < length (lines_of (build_custom_filtering_rules str_of we be wr br))"
    unfolding L by simp
  moreover have "lines_of (build_custom_filtering_rules str_of we be wr br) ! 0 = ''! Whitelist''"
    unfolding L by simp
  moreover have "lines_of (build_custom_filtering_rules str_of we be wr br) ! ?j = ''! Blacklist''"
    unfolding L by (simp add: nth_append)
  ultimately show ?thesis by blast
qed

theorem build_custom_filtering_rules_deterministic_witness:
  "build_custom_filtering_rules (\<lambda>v. ''None'') [\<lparr>domain = JStr ''good.com'', comment = JStr ''ok''\<rparr>] []
       [] [\<lparr>domain = JStr ''bad.*'', comment = JNull\<rparr>]
     = ''! Whitelist\<newline># ok\<newline>@@|good.com^\<newline>\<newline>\<newline>! Blacklist\<newline># None\<newline>/bad.*/\<newline>''
   \<and> (\<exists>i j. i < j
        \<and> j < length (lines_of (build_custom_filtering_rules (\<lambda>v. ''None'')
              [\<lparr>domain = JStr ''good.com'', comment = JStr ''ok''\<rparr>] []
              [] [\<lparr>domain = JStr ''bad.*'', comment = JNull\<rparr>]))
        \<and> lines_of (build_custom_filtering_rules (\<lambda>v. ''None'')
              [\<lparr>domain = JStr ''good.com'', comment = JStr ''ok''\<rparr>] []
              [] [\<lparr>domain = JStr ''bad.*'', comment = JNull\<rparr>]) ! i = ''! Whitelist''
        \<and> lines_of (build_custom_filtering_rules (\<lambda>v. ''None'')
              [\<lparr>domain = JStr ''good.com'', comment = JStr ''ok''\<rparr>] []
              [] [\<lparr>domain = JStr ''bad.*'', comment = JNull\<rparr>]) ! j = ''! Blacklist'')"
proof -
  have "build_custom_filtering_rules (\<lambda>v. ''None'') [\<lparr>domain = JStr ''good.com'', comment = JStr ''ok''\<rparr>] []
       [] [\<lparr>domain = JStr ''bad.*'', comment = JNull\<rparr>]
     = ''! Whitelist\<newline># ok\<newline>@@|good.com^\<newline>\<newline>\<newline>! Blacklist\<newline># None\<newline>/bad.*/\<newline>''"
    by (simp add: build_custom_filtering_rules_def)
  moreover note build_custom_filtering_rules_deterministic
    [of "[\<lparr>domain = JStr ''good.com'', comment = JStr ''ok''\<rparr>]"
        "[\<lparr>domain = JStr ''good.com'', comment = JStr ''ok''\<rparr>]" "[]" "[]" "[]" "[]"
        "[\<lparr>domain = JStr ''bad.*'', comment = JNull\<rparr>]"
        "[\<lparr>domain = JStr ''bad.*'', comment = JNull\<rparr>]" "\<lambda>v. ''None''"]
  ultimately show ?thesis by blast
qed

section \<open>URL normalization and the liveness filter\<close>

lemma scan_bs_Nil: "scan_replace backslash_slash new [] = []"
  by simp

lemma scan_bs_hit:
  "scan_replace backslash_slash new (CHR 0x5C # CHR ''/'' # r) = new @ scan_replace backslash_slash new r"
  by (simp add: backslash_slash_def)

lemma scan_bs_miss:
  "c \<noteq> CHR 0x5C \<or> cs = [] \<or> hd cs \<noteq> CHR ''/'' \<Longrightarrow>
   scan_replace backslash_slash new (c # cs) = c # scan_replace backslash_slash new cs"
  by (cases cs) (auto simp: backslash_slash_def)

lemma scan_bs_split:
  "scan_replace backslash_slash new (a @ backslash_slash @ b)
     = scan_replace backslash_slash new a @ new @ scan_replace backslash_slash new b"
proof (induction a rule: induct_list012)
  case 1
  show ?case using scan_bs_hit [of new b] by (simp add: backslash_slash_def)
next
  case (2 x)
  have "scan_replace backslash_slash new (x # CHR 0x5C # CHR ''/'' # b)
      = x # scan_replace backslash_slash new (CHR 0x5C # CHR ''/'' # b)"
    by (rule scan_bs_miss) simp
  moreover have "scan_replace backslash_slash new [x] = [x]"
    using scan_bs_miss [of x "[]" new] by simp
  ultimately show ?case using scan_bs_hit [of new b] by (simp add: backslash_slash_def)
next
  case (3 x y zs)
  show ?case
  proof (cases "x = CHR 0x5C \<and> y = CHR ''/''")
    case True
    then show ?thesis using 3(1) scan_bs_hit [of new zs] scan_bs_hit [of new "zs @ backslash_slash @ b"]
      by simp
  next
    case False
    then have "scan_replace backslash_slash new (x # (y # zs) @ backslash_slash @ b)
        = x # scan_replace backslash_slash new ((y # zs) @ backslash_slash @ b)"
      by (intro scan_bs_miss) auto
    moreover from False have "scan_replace backslash_slash new (x # y # zs)
        = x # scan_replace backslash_slash new (y # zs)"
      by (intro scan_bs_miss) auto
    ultimately show ?thesis using 3(2) by simp
  qed
qed

lemma scan_bs_no_occurrence:
  "\<not> sublist backslash_slash s \<Longrightarrow> scan_replace backslash_slash new s = s"
proof (induction s)
  case Nil
  show ?case by simp
next
  case (Cons c cs)
  from Cons.prems have np: "\<not> prefix backslash_slash (c # cs)" and ns: "\<not> sublist backslash_slash cs"
    by (auto simp: sublist_Cons_right)
  from np have "scan_replace backslash_slash new (c # cs) = c # scan_replace backslash_slash new cs"
    by simp
  with Cons.IH [OF ns] show ?case by simp
qed

lemma str_replace_bs: "str_replace s backslash_slash new = scan_replace backslash_slash new s"
  by (simp add: str_replace_def backslash_slash_def)

lemma example_url:
  "str_replace (''https:'' @ backslash_slash @ backslash_slash @ ''example.com'' @ backslash_slash @ ''list.txt'') backslash_slash ''/''
   = ''https://example.com/list.txt''"
  by (simp add: str_replace_def backslash_slash_def)

lemma test_url_str:
  "test_url head (JStr s) =
     (case head (str_replace s backslash_slash ''/'') of
        Response status_code \<Rightarrow> Inr (status_code = 200)
      | RequestException \<Rightarrow> Inr False
      | Raises err \<Rightarrow> Inl err)"
  by (simp add: test_url_def)

lemma test_url_returns:
  "test_url head (JStr s) = Inr ok \<Longrightarrow>
   ok = (head (str_replace s backslash_slash ''/'') = Response 200)"
  by (auto simp: test_url_str split: probe_outcome.splits)

lemma test_url_no_raise:
  "\<forall>err. head (str_replace s backslash_slash ''/'') \<noteq> Raises err \<Longrightarrow>
   test_url head (JStr s) = Inr (head (str_replace s backslash_slash ''/'') = Response 200)"
  by (cases "head (str_replace s backslash_slash ''/'')") (simp_all add: test_url_str)

text \<open>
  When every address is a string and no probe raises an exception outside
  \<^verbatim>\<open>RequestException\<close>, the filter returns the entries answered with 200.
\<close>

lemma filter_typed:
  "\<forall>e\<in>set adlist. \<exists>s. address e = JStr s
      \<and> (\<forall>err. head (str_replace s backslash_slash ''/'') \<noteq> Raises err) \<Longrightarrow>
   filter_working_adlist head adlist = Inr (filter (probe_ok head) adlist)"
proof (induction adlist)
  case Nil
  show ?case by simp
next
  case (Cons e es)
  then obtain s where s: "address e = JStr s"
    and n: "\<forall>err. head (str_replace s backslash_slash ''/'') \<noteq> Raises err" by auto
  from Cons have IH: "filter_working_adlist head es = Inr (filter (probe_ok head) es)" by simp
  have "probe_ok head e = (head (str_replace s backslash_slash ''/'') = Response 200)"
    by (simp add: probe_ok_def s)
  then show ?case using test_url_no_raise [of head s] n by (simp add: s IH)
qed

lemma filter_result:
  "filter_working_adlist head adlist = Inr out \<Longrightarrow> out = filter (probe_ok head) adlist"
proof (induction adlist arbitrary: out)
  case Nil
  then show ?case by simp
next
  case (Cons e es)
  from Cons.prems obtain ok out' where t: "test_url head (address e) = Inr ok"
     and r: "filter_working_adlist head es = Inr out'" and o: "out = (if ok then e # out' else out')"
    by (auto split: sum.splits)
  from t obtain s where s: "address e = JStr s"
    by (cases "address e") (simp_all add: test_url_def)
  from t s have "ok = probe_ok head e"
    using test_url_returns [of head s ok] by (simp add: probe_ok_def)
  with Cons.IH [OF r] o show ?case by simp
qed

lemma print_one:
  "print_adlist str_of [\<lparr>address = JStr s, comment = c\<rparr>] w
    = (Inr (), print ''\<newline>\<newline>'' (print (''URL: '' @ str_replace s backslash_slash ''/'')
          (print (''Name: '' @ py_format str_of c) w)))"
  by simp

lemma str_replace_bs_split:
  "str_replace (a @ backslash_slash @ b) backslash_slash new
     = str_replace a backslash_slash new @ new @ str_replace b backslash_slash new"
  by (simp only: str_replace_bs scan_bs_split)

lemma str_replace_bs_no_occurrence:
  "\<not> sublist backslash_slash s \<Longrightarrow> str_replace s backslash_slash new = s"
  by (simp add: str_replace_bs scan_bs_no_occurrence)

text \<open>
  C4: the normalization \<^verbatim>\<open>.replace("\\/", "/")\<close> leaves a string without the sequence
  backslash-slash as it is, and on a string split at an occurrence it puts one slash for
  the occurrence and normalizes the two sides on their own, so every occurrence becomes a
  single slash and nothing else changes; it maps the escaped example address to
  \<^verbatim>\<open>https://example.com/list.txt\<close>. \<^verbatim>\<open>test_url\<close> probes the normalized URL, and the
  report prints the normalized URL of an entry.
\<close>

theorem url_normalization:
  "(\<not> sublist backslash_slash s \<longrightarrow> str_replace s backslash_slash ''/'' = s)
   \<and> str_replace (a @ backslash_slash @ b) backslash_slash ''/''
       = str_replace a backslash_slash ''/'' @ ''/'' @ str_replace b backslash_slash ''/''
   \<and> str_replace (''https:'' @ backslash_slash @ backslash_slash @ ''example.com''
         @ backslash_slash @ ''list.txt'') backslash_slash ''/''
       = ''https://example.com/list.txt''
   \<and> test_url head (JStr s) =
       (case head (str_replace s backslash_slash ''/'') of
          Response status_code \<Rightarrow> Inr (status_code = 200)
        | RequestException \<Rightarrow> Inr False
        | Raises err \<Rightarrow> Inl err)
   \<and> print_adlist str_of [\<lparr>address = JStr s, comment = c\<rparr>] w
       = (Inr (), print ''\<newline>\<newline>'' (print (''URL: '' @ str_replace s backslash_slash ''/'')
            (print (''Name: '' @ py_format str_of c) w)))"
  using str_replace_bs_no_occurrence [of s "''/''"] str_replace_bs_split [of a b "''/''"]
    example_url test_url_str [of head s] print_one [of str_of s c w]
  by blast

lemma no_bs_in_plain: "\<not> sublist backslash_slash ''http://a/b''"
  by (simp add: backslash_slash_def sublist_Cons_right)

text \<open>The normalization theorem at a URL without escapes and at a string with one.\<close>

theorem url_normalization_witness:
  "\<not> sublist backslash_slash ''http://a/b''
   \<and> str_replace ''http://a/b'' backslash_slash ''/'' = ''http://a/b''
   \<and> str_replace (''a'' @ backslash_slash @ ''b'') backslash_slash ''/''
       = str_replace ''a'' backslash_slash ''/'' @ ''/'' @ str_replace ''b'' backslash_slash ''/''
   \<and> test_url sample_head (JStr ''http://a/b'') =
       (case sample_head (str_replace ''http://a/b'' backslash_slash ''/'') of
          Response status_code \<Rightarrow> Inr (status_code = 200)
        | RequestException \<Rightarrow> Inr False
        | Raises err \<Rightarrow> Inl err)"
  using url_normalization [of "''http://a/b''" "''a''" "''b''" sample_head] no_bs_in_plain
  by blast

lemma sample_adlist_typed:
  "\<forall>e\<in>set sample_adlist. \<exists>s. address e = JStr s
      \<and> (\<forall>err. sample_head (str_replace s backslash_slash ''/'') \<noteq> Raises err)"
  by (simp add: sample_adlist_def sample_head_def)

lemma sample_probe_ok:
  "filter (probe_ok sample_head) sample_adlist = [\<lparr>address = JStr escaped_url, comment = JStr ''live''\<rparr>]"
  by (simp add: sample_adlist_def probe_ok_def sample_head_def escaped_url_def
      str_replace_def backslash_slash_def)

text \<open>
  C3 on the code: the handler of \<^verbatim>\<open>test_url\<close> catches \<^verbatim>\<open>RequestException\<close> only. On
  the address with the overlong host label \<^verbatim>\<open>requests.head\<close> raises
  \<^verbatim>\<open>LocationParseError\<close>; \<^verbatim>\<open>test_url\<close> does not return \<^verbatim>\<open>False\<close> but raises, and
  \<^verbatim>\<open>filter_working_adlist\<close> ends with the exception where the entry should have been left
  out and the live entry before it returned.
\<close>

theorem filter_working_adlist_aborts_on_other_exception:
  "test_url raising_head (JStr long_label_url) = Inl LocationParseError
   \<and> filter_working_adlist raising_head
        [\<lparr>address = JStr escaped_url, comment = JStr ''live''\<rparr>,
         \<lparr>address = JStr long_label_url, comment = JStr ''bad host''\<rparr>]
       = Inl LocationParseError"
  by (simp add: test_url_def raising_head_def sample_head_def long_label_url_def escaped_url_def
      str_replace_def backslash_slash_def)

text \<open>
  C9: whatever \<^verbatim>\<open>filter_working_adlist\<close> returns is a subsequence of its input, every
  element an input element as it was; an entry with an escaped address that passes
  the probe is returned with the escaped address, and the normalized form appears only
  in the probed URL and in the printed line.
\<close>

theorem filter_working_adlist_frame:
  "(filter_working_adlist head adlist = Inr out \<longrightarrow>
      out = filter (probe_ok head) adlist \<and> subseq out adlist \<and> (\<forall>e\<in>set out. e \<in> set adlist))
   \<and> (head (str_replace s backslash_slash ''/'') = Response 200 \<longrightarrow>
        filter_working_adlist head [\<lparr>address = JStr s, comment = c\<rparr>]
          = Inr [\<lparr>address = JStr s, comment = c\<rparr>]
        \<and> print_adlist str_of [\<lparr>address = JStr s, comment = c\<rparr>] w
          = (Inr (), print ''\<newline>\<newline>'' (print (''URL: '' @ str_replace s backslash_slash ''/'')
               (print (''Name: '' @ py_format str_of c) w))))"
proof -
  have "filter_working_adlist head adlist = Inr out \<longrightarrow>
      out = filter (probe_ok head) adlist \<and> subseq out adlist \<and> (\<forall>e\<in>set out. e \<in> set adlist)"
    using filter_result [of head adlist out] by auto
  moreover have "head (str_replace s backslash_slash ''/'') = Response 200 \<longrightarrow>
        filter_working_adlist head [\<lparr>address = JStr s, comment = c\<rparr>]
          = Inr [\<lparr>address = JStr s, comment = c\<rparr>]"
    by (simp add: test_url_str)
  ultimately show ?thesis using print_one [of str_of s c w] by blast
qed

lemma sample_escaped_live: "sample_head (str_replace escaped_url backslash_slash ''/'') = Response 200"
  by (simp add: sample_head_def escaped_url_def str_replace_def backslash_slash_def)

lemma sample_filter_run:
  "filter_working_adlist sample_head sample_adlist
     = Inr [\<lparr>address = JStr escaped_url, comment = JStr ''live''\<rparr>]"
  using filter_typed [OF sample_adlist_typed] by (simp only: sample_probe_ok)

text \<open>The surviving sample entry keeps its escaped address.\<close>

theorem filter_working_adlist_frame_witness:
  "filter_working_adlist sample_head sample_adlist
     = Inr [\<lparr>address = JStr escaped_url, comment = JStr ''live''\<rparr>]
   \<and> subseq [\<lparr>address = JStr escaped_url, comment = JStr ''live''\<rparr>] sample_adlist
   \<and> sample_head (str_replace escaped_url backslash_slash ''/'') = Response 200
   \<and> filter_working_adlist sample_head [\<lparr>address = JStr escaped_url, comment = JStr ''live''\<rparr>]
       = Inr [\<lparr>address = JStr escaped_url, comment = JStr ''live''\<rparr>]"
  using filter_working_adlist_frame [of sample_head sample_adlist
      "[\<lparr>address = JStr escaped_url, comment = JStr ''live''\<rparr>]" escaped_url "JStr ''live''"]
    sample_filter_run sample_escaped_live
  by blast

section \<open>The list readers\<close>

lemma adlist_step_no_enabled:
  "map_of r ''enabled'' = None \<Longrightarrow>
   adlist_records (JObj r # es) = Inl (KeyError ''enabled'')"
  by simp

lemma adlist_step_disabled:
  "map_of r ''enabled'' = Some en \<Longrightarrow> \<not> py_truthy en \<Longrightarrow>
   adlist_records (JObj r # es) = adlist_records es"
  by simp

lemma adlist_step_no_address:
  "map_of r ''enabled'' = Some en \<Longrightarrow> py_truthy en \<Longrightarrow> map_of r ''address'' = None \<Longrightarrow>
   adlist_records (JObj r # es) = Inl (KeyError ''address'')"
  by simp

lemma adlist_step_no_comment:
  "map_of r ''enabled'' = Some en \<Longrightarrow> py_truthy en \<Longrightarrow> map_of r ''address'' = Some a \<Longrightarrow>
   map_of r ''comment'' = None \<Longrightarrow>
   adlist_records (JObj r # es) = Inl (KeyError ''comment'')"
  by simp

lemma adlist_step_kept:
  "map_of r ''enabled'' = Some en \<Longrightarrow> py_truthy en \<Longrightarrow> map_of r ''address'' = Some a \<Longrightarrow>
   map_of r ''comment'' = Some c \<Longrightarrow>
   adlist_records (JObj r # es) =
     (case adlist_records es of Inl err \<Rightarrow> Inl err
      | Inr out \<Rightarrow> Inr (\<lparr>address = a, comment = c\<rparr> # out))"
  by simp

lemma adlist_records_ok:
  "\<forall>r\<in>set rs. \<not> adlist_record_raises r \<Longrightarrow>
   \<exists>out. adlist_records (map JObj rs) = Inr out \<and>
     list_all2 (\<lambda>r e. map_of r ''address'' = Some (address e) \<and> map_of r ''comment'' = Some (adlist_entry.comment e))
       (filter enabled_truthy rs) out"
proof (induction rs)
  case Nil
  show ?case by simp
next
  case (Cons r rs)
  then obtain out where out: "adlist_records (map JObj rs) = Inr out"
    and rel: "list_all2 (\<lambda>r e. map_of r ''address'' = Some (address e)
                 \<and> map_of r ''comment'' = Some (adlist_entry.comment e))
       (filter enabled_truthy rs) out"
    by auto
  from Cons.prems have nr: "\<not> adlist_record_raises r" by simp
  then obtain en where en: "map_of r ''enabled'' = Some en"
    by (cases "map_of r ''enabled''") (simp_all add: adlist_record_raises_def)
  show ?case
  proof (cases "py_truthy en")
    case True
    with nr en obtain a c where a: "map_of r ''address'' = Some a" and c: "map_of r ''comment'' = Some c"
      by (cases "map_of r ''address''"; cases "map_of r ''comment''")
         (simp_all add: adlist_record_raises_def)
    have kept: "enabled_truthy r" using en True by (simp add: enabled_truthy_def)
    have "adlist_records (map JObj (r # rs)) = Inr (\<lparr>address = a, comment = c\<rparr> # out)"
      using adlist_step_kept [OF en True a c, of "map JObj rs"] out by simp
    moreover have "list_all2 (\<lambda>r e. map_of r ''address'' = Some (address e)
                 \<and> map_of r ''comment'' = Some (adlist_entry.comment e))
       (filter enabled_truthy (r # rs)) (\<lparr>address = a, comment = c\<rparr> # out)"
      using kept rel a c by simp
    ultimately show ?thesis by blast
  next
    case False
    have dropped: "\<not> enabled_truthy r" using en False by (simp add: enabled_truthy_def)
    have "adlist_records (map JObj (r # rs)) = Inr out"
      using adlist_step_disabled [OF en False, of "map JObj rs"] out by simp
    moreover have "list_all2 (\<lambda>r e. map_of r ''address'' = Some (address e)
                 \<and> map_of r ''comment'' = Some (adlist_entry.comment e))
       (filter enabled_truthy (r # rs)) out"
      using dropped rel by simp
    ultimately show ?thesis by blast
  qed
qed

lemma adlist_records_raise:
  "\<exists>r\<in>set rs. adlist_record_raises r \<Longrightarrow>
   \<exists>k. k \<in> {''enabled'', ''address'', ''comment''} \<and> adlist_records (map JObj rs) = Inl (KeyError k)"
proof (induction rs)
  case Nil
  then show ?case by simp
next
  case (Cons r rs)
  show ?case
  proof (cases "map_of r ''enabled''")
    case None
    then show ?thesis using adlist_step_no_enabled [OF None, of "map JObj rs"] by simp
  next
    case (Some en)
    show ?thesis
    proof (cases "py_truthy en")
      case False
      with Some have "\<not> adlist_record_raises r" by (simp add: adlist_record_raises_def)
      with Cons obtain k where "k \<in> {''enabled'', ''address'', ''comment''}"
        and "adlist_records (map JObj rs) = Inl (KeyError k)" by auto
      then show ?thesis using adlist_step_disabled [OF Some False, of "map JObj rs"] by auto
    next
      case True
      show ?thesis
      proof (cases "map_of r ''address''")
        case None
        then show ?thesis using adlist_step_no_address [OF Some True None, of "map JObj rs"] by simp
      next
        case a: (Some a)
        show ?thesis
        proof (cases "map_of r ''comment''")
          case None
          then show ?thesis using adlist_step_no_comment [OF Some True a None, of "map JObj rs"] by simp
        next
          case c: (Some c)
          with Some True a have "\<not> adlist_record_raises r" by (simp add: adlist_record_raises_def)
          with Cons obtain k where "k \<in> {''enabled'', ''address'', ''comment''}"
            and "adlist_records (map JObj rs) = Inl (KeyError k)" by auto
          then show ?thesis using adlist_step_kept [OF Some True a c, of "map JObj rs"] by auto
        qed
      qed
    qed
  qed
qed

lemma domain_step_no_enabled:
  "map_of r ''enabled'' = None \<Longrightarrow>
   domain_records (JObj r # es) = Inl (KeyError ''enabled'')"
  by simp

lemma domain_step_disabled:
  "map_of r ''enabled'' = Some en \<Longrightarrow> \<not> py_eq_int en 1 \<Longrightarrow>
   domain_records (JObj r # es) = domain_records es"
  by simp

lemma domain_step_no_domain:
  "map_of r ''enabled'' = Some en \<Longrightarrow> py_eq_int en 1 \<Longrightarrow> map_of r ''domain'' = None \<Longrightarrow>
   domain_records (JObj r # es) = Inl (KeyError ''domain'')"
  by simp

lemma domain_step_no_comment:
  "map_of r ''enabled'' = Some en \<Longrightarrow> py_eq_int en 1 \<Longrightarrow> map_of r ''domain'' = Some a \<Longrightarrow>
   map_of r ''comment'' = None \<Longrightarrow>
   domain_records (JObj r # es) = Inl (KeyError ''comment'')"
  by simp

lemma domain_step_kept:
  "map_of r ''enabled'' = Some en \<Longrightarrow> py_eq_int en 1 \<Longrightarrow> map_of r ''domain'' = Some a \<Longrightarrow>
   map_of r ''comment'' = Some c \<Longrightarrow>
   domain_records (JObj r # es) =
     (case domain_records es of Inl err \<Rightarrow> Inl err
      | Inr out \<Rightarrow> Inr (\<lparr>domain = a, comment = c\<rparr> # out))"
  by simp

lemma domain_records_ok:
  "\<forall>r\<in>set rs. \<not> domain_record_raises r \<Longrightarrow>
   \<exists>out. domain_records (map JObj rs) = Inr out \<and>
     list_all2 (\<lambda>r e. map_of r ''domain'' = Some (domain e) \<and> map_of r ''comment'' = Some (domain_entry.comment e))
       (filter enabled_eq_1 rs) out"
proof (induction rs)
  case Nil
  show ?case by simp
next
  case (Cons r rs)
  then obtain out where out: "domain_records (map JObj rs) = Inr out"
    and rel: "list_all2 (\<lambda>r e. map_of r ''domain'' = Some (domain e)
                 \<and> map_of r ''comment'' = Some (domain_entry.comment e))
       (filter enabled_eq_1 rs) out"
    by auto
  from Cons.prems have nr: "\<not> domain_record_raises r" by simp
  then obtain en where en: "map_of r ''enabled'' = Some en"
    by (cases "map_of r ''enabled''") (simp_all add: domain_record_raises_def)
  show ?case
  proof (cases "py_eq_int en 1")
    case True
    with nr en obtain a c where a: "map_of r ''domain'' = Some a" and c: "map_of r ''comment'' = Some c"
      by (cases "map_of r ''domain''"; cases "map_of r ''comment''")
         (simp_all add: domain_record_raises_def)
    have kept: "enabled_eq_1 r" using en True by (simp add: enabled_eq_1_def)
    have "domain_records (map JObj (r # rs)) = Inr (\<lparr>domain = a, comment = c\<rparr> # out)"
      using domain_step_kept [OF en True a c, of "map JObj rs"] out by simp
    moreover have "list_all2 (\<lambda>r e. map_of r ''domain'' = Some (domain e)
                 \<and> map_of r ''comment'' = Some (domain_entry.comment e))
       (filter enabled_eq_1 (r # rs)) (\<lparr>domain = a, comment = c\<rparr> # out)"
      using kept rel a c by simp
    ultimately show ?thesis by blast
  next
    case False
    have dropped: "\<not> enabled_eq_1 r" using en False by (simp add: enabled_eq_1_def)
    have "domain_records (map JObj (r # rs)) = Inr out"
      using domain_step_disabled [OF en False, of "map JObj rs"] out by simp
    moreover have "list_all2 (\<lambda>r e. map_of r ''domain'' = Some (domain e)
                 \<and> map_of r ''comment'' = Some (domain_entry.comment e))
       (filter enabled_eq_1 (r # rs)) out"
      using dropped rel by simp
    ultimately show ?thesis by blast
  qed
qed

lemma domain_records_raise:
  "\<exists>r\<in>set rs. domain_record_raises r \<Longrightarrow>
   \<exists>k. k \<in> {''enabled'', ''domain'', ''comment''} \<and> domain_records (map JObj rs) = Inl (KeyError k)"
proof (induction rs)
  case Nil
  then show ?case by simp
next
  case (Cons r rs)
  show ?case
  proof (cases "map_of r ''enabled''")
    case None
    then show ?thesis using domain_step_no_enabled [OF None, of "map JObj rs"] by simp
  next
    case (Some en)
    show ?thesis
    proof (cases "py_eq_int en 1")
      case False
      with Some have "\<not> domain_record_raises r" by (simp add: domain_record_raises_def)
      with Cons obtain k where "k \<in> {''enabled'', ''domain'', ''comment''}"
        and "domain_records (map JObj rs) = Inl (KeyError k)" by auto
      then show ?thesis using domain_step_disabled [OF Some False, of "map JObj rs"] by auto
    next
      case True
      show ?thesis
      proof (cases "map_of r ''domain''")
        case None
        then show ?thesis using domain_step_no_domain [OF Some True None, of "map JObj rs"] by simp
      next
        case a: (Some a)
        show ?thesis
        proof (cases "map_of r ''comment''")
          case None
          then show ?thesis using domain_step_no_comment [OF Some True a None, of "map JObj rs"] by simp
        next
          case c: (Some c)
          with Some True a have "\<not> domain_record_raises r" by (simp add: domain_record_raises_def)
          with Cons obtain k where "k \<in> {''enabled'', ''domain'', ''comment''}"
            and "domain_records (map JObj rs) = Inl (KeyError k)" by auto
          then show ?thesis using domain_step_kept [OF Some True a c, of "map JObj rs"] by auto
        qed
      qed
    qed
  qed
qed

lemma read_adlist_parsed:
  "dirs w temp_dir = Some d \<Longrightarrow> d ''adlist.json'' = Some (Parsed (JArr es)) \<Longrightarrow>
   read_adlist w temp_dir = adlist_records es"
  by (simp add: read_adlist_def load_json_def)

lemma read_domain_list_parsed:
  "dirs w temp_dir = Some d \<Longrightarrow> d name = Some (Parsed (JArr es)) \<Longrightarrow>
   read_domain_list name w temp_dir = domain_records es"
  by (simp add: read_domain_list_def load_json_def)

lemma domain_readers_read:
  "(reader, name) \<in> set domain_readers \<Longrightarrow> reader = read_domain_list name"
  by (auto simp: domain_readers_def read_whitelist_exact_def read_blacklist_exact_def
      read_whitelist_regex_def read_blacklist_regex_def)

lemma keys_not_raise_adlist:
  "{''address'', ''comment'', ''enabled''} \<subseteq> dom (map_of r) \<Longrightarrow> \<not> adlist_record_raises r"
  by (auto simp: adlist_record_raises_def split: option.splits)

lemma keys_not_raise_domain:
  "{''domain'', ''comment'', ''enabled''} \<subseteq> dom (map_of r) \<Longrightarrow> \<not> domain_record_raises r"
  by (auto simp: domain_record_raises_def split: option.splits)

lemma py_eq_int_1: "py_eq_int (JInt n) 1 = (n = 1)"
  by simp

text \<open>
  C2: for a file that parses to an array of records with the expected keys,
  \<^verbatim>\<open>read_adlist\<close> returns, in file order, one entry for each record whose \<^verbatim>\<open>enabled\<close>
  value is truthy, and each of the four domain-list readers one entry for each record
  whose \<^verbatim>\<open>enabled\<close> value equals \<open>1\<close> (for an integer value: is \<open>1\<close>); the two
  fields of an entry are the record's address (or domain) and comment, unchanged.
\<close>

theorem list_readers_keep_enabled_records:
  assumes "dirs w temp_dir = Some d"
  shows "(d ''adlist.json'' = Some (Parsed (JArr (map JObj rs)))
          \<and> (\<forall>r\<in>set rs. {''address'', ''comment'', ''enabled''} \<subseteq> dom (map_of r)) \<longrightarrow>
          (\<exists>out. read_adlist w temp_dir = Inr out
             \<and> list_all2 (\<lambda>r e. map_of r ''address'' = Some (address e)
                            \<and> map_of r ''comment'' = Some (adlist_entry.comment e))
                  (filter enabled_truthy rs) out))
       \<and> ((reader, name) \<in> set domain_readers
          \<and> d name = Some (Parsed (JArr (map JObj ds)))
          \<and> (\<forall>r\<in>set ds. {''domain'', ''comment'', ''enabled''} \<subseteq> dom (map_of r)) \<longrightarrow>
          (\<exists>out. reader w temp_dir = Inr out
             \<and> list_all2 (\<lambda>r e. map_of r ''domain'' = Some (domain e)
                            \<and> map_of r ''comment'' = Some (domain_entry.comment e))
                  (filter enabled_eq_1 ds) out))
       \<and> py_eq_int (JInt n) 1 = (n = 1)"
proof (intro conjI impI)
  assume h: "d ''adlist.json'' = Some (Parsed (JArr (map JObj rs)))
     \<and> (\<forall>r\<in>set rs. {''address'', ''comment'', ''enabled''} \<subseteq> dom (map_of r))"
  then have "\<forall>r\<in>set rs. \<not> adlist_record_raises r"
    using keys_not_raise_adlist by blast
  from adlist_records_ok [OF this] read_adlist_parsed [OF assms, of "map JObj rs"] h
  show "\<exists>out. read_adlist w temp_dir = Inr out
             \<and> list_all2 (\<lambda>r e. map_of r ''address'' = Some (address e)
                            \<and> map_of r ''comment'' = Some (adlist_entry.comment e))
                  (filter enabled_truthy rs) out"
    by simp
next
  assume h: "(reader, name) \<in> set domain_readers
          \<and> d name = Some (Parsed (JArr (map JObj ds)))
          \<and> (\<forall>r\<in>set ds. {''domain'', ''comment'', ''enabled''} \<subseteq> dom (map_of r))"
  then have "\<forall>r\<in>set ds. \<not> domain_record_raises r"
    using keys_not_raise_domain by blast
  from domain_records_ok [OF this] read_domain_list_parsed [OF assms, of name "map JObj ds"] h
    domain_readers_read [of reader name]
  show "\<exists>out. reader w temp_dir = Inr out
             \<and> list_all2 (\<lambda>r e. map_of r ''domain'' = Some (domain e)
                            \<and> map_of r ''comment'' = Some (domain_entry.comment e))
                  (filter enabled_eq_1 ds) out"
    by simp
next
  show "py_eq_int (JInt n) 1 = (n = 1)" by simp
qed

lemma sample_dir: "dirs sample_world ''/tmp/tmpabc'' = Some sample_files"
  by (simp add: sample_world_def)

lemma sample_adlist_file:
  "sample_files ''adlist.json'' = Some (Parsed (JArr (map JObj sample_adlist_records)))"
  by (simp add: sample_files_def)

lemma sample_whitelist_file:
  "sample_files ''whitelist.exact.json'' = Some (Parsed (JArr (map JObj sample_whitelist_records)))"
  by (simp add: sample_files_def)

lemma sample_blacklist_regex_file:
  "sample_files ''blacklist.regex.json'' = Some (Parsed (JArr (map JObj sample_blacklist_records)))"
  by (simp add: sample_files_def)

lemma sample_whitelist_regex_file: "sample_files ''whitelist.regex.json'' = Some Unparseable"
  by (simp add: sample_files_def)

lemma sample_adlist_keys:
  "\<forall>r\<in>set sample_adlist_records. {''address'', ''comment'', ''enabled''} \<subseteq> dom (map_of r)"
  by (simp add: sample_adlist_records_def)

lemma sample_whitelist_keys:
  "\<forall>r\<in>set sample_whitelist_records. {''domain'', ''comment'', ''enabled''} \<subseteq> dom (map_of r)"
  by (simp add: sample_whitelist_records_def)

lemma whitelist_exact_reader: "(read_whitelist_exact, ''whitelist.exact.json'') \<in> set domain_readers"
  by (simp add: domain_readers_def)

lemma whitelist_regex_reader: "(read_whitelist_regex, ''whitelist.regex.json'') \<in> set domain_readers"
  by (simp add: domain_readers_def)

lemma blacklist_regex_reader: "(read_blacklist_regex, ''blacklist.regex.json'') \<in> set domain_readers"
  by (simp add: domain_readers_def)

text \<open>The sample archive: one of two adlist records and one of two whitelist records is kept.\<close>

theorem list_readers_keep_enabled_records_witness:
  "dirs sample_world ''/tmp/tmpabc'' = Some sample_files
   \<and> sample_files ''adlist.json'' = Some (Parsed (JArr (map JObj sample_adlist_records)))
   \<and> (\<exists>out. read_adlist sample_world ''/tmp/tmpabc'' = Inr out
         \<and> list_all2 (\<lambda>r e. map_of r ''address'' = Some (address e)
                        \<and> map_of r ''comment'' = Some (adlist_entry.comment e))
              (filter enabled_truthy sample_adlist_records) out)
   \<and> sample_files ''whitelist.exact.json''
        = Some (Parsed (JArr (map JObj sample_whitelist_records)))
   \<and> (\<exists>out. read_whitelist_exact sample_world ''/tmp/tmpabc'' = Inr out
         \<and> list_all2 (\<lambda>r e. map_of r ''domain'' = Some (domain e)
                        \<and> map_of r ''comment'' = Some (domain_entry.comment e))
              (filter enabled_eq_1 sample_whitelist_records) out)"
  using list_readers_keep_enabled_records [OF sample_dir, of sample_adlist_records
      read_whitelist_exact "''whitelist.exact.json''" sample_whitelist_records]
    sample_dir sample_adlist_file sample_adlist_keys sample_whitelist_file sample_whitelist_keys
    whitelist_exact_reader
  by blast

lemma read_adlist_unparseable:
  "dirs w temp_dir = Some d \<Longrightarrow> d ''adlist.json'' = Some Unparseable \<Longrightarrow>
   read_adlist w temp_dir = Inl JSONDecodeError"
  by (simp add: read_adlist_def load_json_def)

lemma read_domain_list_unparseable:
  "dirs w temp_dir = Some d \<Longrightarrow> d name = Some Unparseable \<Longrightarrow>
   read_domain_list name w temp_dir = Inl JSONDecodeError"
  by (simp add: read_domain_list_def load_json_def)

lemma adlist_records_outcome:
  "if \<exists>r\<in>set rs. adlist_record_raises r
   then \<exists>k. k \<in> {''enabled'', ''address'', ''comment''}
          \<and> adlist_records (map JObj rs) = Inl (KeyError k)
   else \<exists>out. adlist_records (map JObj rs) = Inr out"
proof (cases "\<exists>r\<in>set rs. adlist_record_raises r")
  case True
  then show ?thesis using adlist_records_raise [of rs] by simp
next
  case False
  then have "\<forall>r\<in>set rs. \<not> adlist_record_raises r" by simp
  from adlist_records_ok [OF this] False show ?thesis by auto
qed

lemma domain_records_outcome:
  "if \<exists>r\<in>set rs. domain_record_raises r
   then \<exists>k. k \<in> {''enabled'', ''domain'', ''comment''}
          \<and> domain_records (map JObj rs) = Inl (KeyError k)
   else \<exists>out. domain_records (map JObj rs) = Inr out"
proof (cases "\<exists>r\<in>set rs. domain_record_raises r")
  case True
  then show ?thesis using domain_records_raise [of rs] by simp
next
  case False
  then have "\<forall>r\<in>set rs. \<not> domain_record_raises r" by simp
  from domain_records_ok [OF this] False show ?thesis by auto
qed

text \<open>
  C7, as the code has it: a reader raises \<^verbatim>\<open>JSONDecodeError\<close> when the file does not
  parse; on a file that parses to an array of records it raises \<^verbatim>\<open>KeyError\<close> exactly
  when some record lacks \<^verbatim>\<open>enabled\<close>, or passes the reader's test on \<^verbatim>\<open>enabled\<close> and
  lacks its address (or domain) or its comment, and returns a list otherwise. A record
  that does not pass the test is dropped without a look at its other keys.
\<close>

theorem list_readers_key_errors:
  assumes "dirs w temp_dir = Some d"
  shows "(d ''adlist.json'' = Some Unparseable \<longrightarrow> read_adlist w temp_dir = Inl JSONDecodeError)
   \<and> (d ''adlist.json'' = Some (Parsed (JArr (map JObj rs))) \<longrightarrow>
        (if \<exists>r\<in>set rs. adlist_record_raises r
         then \<exists>k. k \<in> {''enabled'', ''address'', ''comment''}
                \<and> read_adlist w temp_dir = Inl (KeyError k)
         else \<exists>out. read_adlist w temp_dir = Inr out))
   \<and> ((reader, name) \<in> set domain_readers \<longrightarrow>
        (d name = Some Unparseable \<longrightarrow> reader w temp_dir = Inl JSONDecodeError)
      \<and> (d name = Some (Parsed (JArr (map JObj ds))) \<longrightarrow>
          (if \<exists>r\<in>set ds. domain_record_raises r
           then \<exists>k. k \<in> {''enabled'', ''domain'', ''comment''}
                  \<and> reader w temp_dir = Inl (KeyError k)
           else \<exists>out. reader w temp_dir = Inr out)))"
proof (intro conjI impI)
  assume "d ''adlist.json'' = Some Unparseable"
  then show "read_adlist w temp_dir = Inl JSONDecodeError"
    by (rule read_adlist_unparseable [OF assms])
next
  assume "d ''adlist.json'' = Some (Parsed (JArr (map JObj rs)))"
  then have "read_adlist w temp_dir = adlist_records (map JObj rs)"
    by (rule read_adlist_parsed [OF assms])
  then show "if \<exists>r\<in>set rs. adlist_record_raises r
         then \<exists>k. k \<in> {''enabled'', ''address'', ''comment''}
                \<and> read_adlist w temp_dir = Inl (KeyError k)
         else \<exists>out. read_adlist w temp_dir = Inr out"
    using adlist_records_outcome [of rs] by (simp only:)
next
  assume "(reader, name) \<in> set domain_readers" and "d name = Some Unparseable"
  then show "reader w temp_dir = Inl JSONDecodeError"
    using read_domain_list_unparseable [OF assms, of name] domain_readers_read [of reader name]
    by simp
next
  assume "(reader, name) \<in> set domain_readers"
    and "d name = Some (Parsed (JArr (map JObj ds)))"
  then have "reader w temp_dir = domain_records (map JObj ds)"
    using read_domain_list_parsed [OF assms, of name "map JObj ds"]
      domain_readers_read [of reader name]
    by simp
  then show "if \<exists>r\<in>set ds. domain_record_raises r
           then \<exists>k. k \<in> {''enabled'', ''domain'', ''comment''}
                  \<and> reader w temp_dir = Inl (KeyError k)
           else \<exists>out. reader w temp_dir = Inr out"
    using domain_records_outcome [of ds] by (simp only:)
qed

lemma sample_adlist_no_raise: "\<not> (\<exists>r\<in>set sample_adlist_records. adlist_record_raises r)"
  by (simp add: sample_adlist_records_def adlist_record_raises_def)

lemma sample_blacklist_raises: "\<exists>r\<in>set sample_blacklist_records. domain_record_raises r"
  by (simp add: sample_blacklist_records_def domain_record_raises_def)

text \<open>
  In the sample archive \<^verbatim>\<open>whitelist.regex.json\<close> does not parse, the enabled record of
  \<^verbatim>\<open>blacklist.regex.json\<close> has no comment, and \<^verbatim>\<open>adlist.json\<close> is read without error.
\<close>

theorem list_readers_key_errors_witness:
  "dirs sample_world ''/tmp/tmpabc'' = Some sample_files
   \<and> sample_files ''whitelist.regex.json'' = Some Unparseable
   \<and> read_whitelist_regex sample_world ''/tmp/tmpabc'' = Inl JSONDecodeError
   \<and> sample_files ''blacklist.regex.json''
       = Some (Parsed (JArr (map JObj sample_blacklist_records)))
   \<and> (\<exists>r\<in>set sample_blacklist_records. domain_record_raises r)
   \<and> (\<exists>k. k \<in> {''enabled'', ''domain'', ''comment''}
         \<and> read_blacklist_regex sample_world ''/tmp/tmpabc'' = Inl (KeyError k))
   \<and> sample_files ''adlist.json'' = Some (Parsed (JArr (map JObj sample_adlist_records)))
   \<and> (\<exists>out. read_adlist sample_world ''/tmp/tmpabc'' = Inr out)"
proof -
  note a = list_readers_key_errors [OF sample_dir, of sample_adlist_records
      read_whitelist_regex "''whitelist.regex.json''" "[]"]
  note b = list_readers_key_errors [OF sample_dir, of "[]"
      read_blacklist_regex "''blacklist.regex.json''" sample_blacklist_records]
  have 1: "read_whitelist_regex sample_world ''/tmp/tmpabc'' = Inl JSONDecodeError"
    using a whitelist_regex_reader sample_whitelist_regex_file by blast
  have 2: "\<exists>k. k \<in> {''enabled'', ''domain'', ''comment''}
         \<and> read_blacklist_regex sample_world ''/tmp/tmpabc'' = Inl (KeyError k)"
    using b blacklist_regex_reader sample_blacklist_regex_file sample_blacklist_raises
    by (simp only: if_True simp_thms)
  have 3: "\<exists>out. read_adlist sample_world ''/tmp/tmpabc'' = Inr out"
    using a sample_adlist_file sample_adlist_no_raise by (simp only: if_False simp_thms)
  show ?thesis
    using 1 2 3 sample_dir sample_whitelist_regex_file sample_blacklist_regex_file
      sample_blacklist_raises sample_adlist_file
    by blast
qed

text \<open>
  C7 as stated fails: a disabled record without address (or domain) and comment raises
  nothing, the readers return the empty list.
\<close>

theorem list_readers_disabled_record_counterexample:
  "map_of [(''enabled'', JBool False)] ''address'' = None
   \<and> read_adlist
        \<lparr>dirs = [''t'' \<mapsto> [''adlist.json'' \<mapsto> Parsed (JArr [JObj [(''enabled'', JBool False)]])]],
         stdout = []\<rparr> ''t'' = Inr []
   \<and> map_of [(''enabled'', JInt 0)] ''domain'' = None
   \<and> read_whitelist_exact
        \<lparr>dirs = [''t'' \<mapsto> [''whitelist.exact.json'' \<mapsto> Parsed (JArr [JObj [(''enabled'', JInt 0)]])]],
         stdout = []\<rparr> ''t'' = Inr []"
  by (simp add: read_adlist_def read_whitelist_exact_def read_domain_list_def load_json_def)

section \<open>The run of main\<close>

lemma main_extract_fails:
  "length argv = 2 \<Longrightarrow> tar_extract ev (argv ! 1) = Inl err \<Longrightarrow>
   main ev argv w = (Inl err, w\<lparr>dirs := (dirs w)(mkdtemp ev \<mapsto> Map.empty)\<rparr>)"
  by (simp add: main_def unzip_tar_gz_def)

lemma main_missing_adlist:
  assumes "length argv = 2" and "tar_extract ev (argv ! 1) = Inr files"
    and "files ''adlist.json'' = None"
  shows "main ev argv w = (Inl FileNotFoundError, w\<lparr>dirs := (dirs w)(mkdtemp ev := None)\<rparr>)"
proof -
  let ?w1 = "w\<lparr>dirs := (dirs w)(mkdtemp ev \<mapsto> files)\<rparr>"
  have u: "unzip_tar_gz ev (argv ! 1) w = (Inr (mkdtemp ev), ?w1)"
    using assms(2) by (simp add: unzip_tar_gz_def Let_def)
  have r: "read_adlist ?w1 (mkdtemp ev) = Inl FileNotFoundError"
    using assms(3) by (simp add: read_adlist_def load_json_def)
  have b: "main_body ev (mkdtemp ev) ?w1 = (Inl FileNotFoundError, ?w1)"
    by (simp add: main_body_def r)
  have t: "rmtree (mkdtemp ev) ?w1 = (Inr (), w\<lparr>dirs := (dirs w)(mkdtemp ev := None)\<rparr>)"
    by (simp add: rmtree_def)
  show ?thesis using assms(1) u b t by (simp add: main_def)
qed

text \<open>
  C6: when the archive extracts and holds no \<^verbatim>\<open>adlist.json\<close>, the run ends with
  \<^verbatim>\<open>FileNotFoundError\<close>, nothing is written to standard output, and the temporary
  directory is removed.
\<close>

theorem main_missing_adlist_cleans_up:
  assumes "length argv = 2" and "tar_extract ev (argv ! 1) = Inr files"
    and "files ''adlist.json'' = None"
  shows "main ev argv w = (Inl FileNotFoundError, w\<lparr>dirs := (dirs w)(mkdtemp ev := None)\<rparr>)
     \<and> stdout (snd (main ev argv w)) = stdout w
     \<and> dirs (snd (main ev argv w)) (mkdtemp ev) = None"
  using main_missing_adlist [OF assms, of w] by simp

text \<open>A run on an archive that holds only \<^verbatim>\<open>whitelist.exact.json\<close>.\<close>

theorem main_missing_adlist_cleans_up_witness:
  "length [''convert_config.py'', ''no_adlist.tar.gz''] = 2
   \<and> main sample_env [''convert_config.py'', ''no_adlist.tar.gz''] \<lparr>dirs = Map.empty, stdout = []\<rparr>
       = (Inl FileNotFoundError,
          \<lparr>dirs = Map.empty, stdout = []\<rparr>\<lparr>dirs := (dirs \<lparr>dirs = Map.empty, stdout = []\<rparr>)(mkdtemp sample_env := None)\<rparr>)
   \<and> stdout (snd (main sample_env [''convert_config.py'', ''no_adlist.tar.gz'']
         \<lparr>dirs = Map.empty, stdout = []\<rparr>)) = []
   \<and> dirs (snd (main sample_env [''convert_config.py'', ''no_adlist.tar.gz'']
         \<lparr>dirs = Map.empty, stdout = []\<rparr>)) ''/tmp/tmpabc'' = None"
proof -
  have l: "length [''convert_config.py'', ''no_adlist.tar.gz''] = 2" by simp
  have x: "tar_extract sample_env ([''convert_config.py'', ''no_adlist.tar.gz''] ! 1)
      = Inr [''whitelist.exact.json'' \<mapsto> Parsed (JArr [])]"
    by (simp add: sample_env_def)
  have f: "[''whitelist.exact.json'' \<mapsto> Parsed (JArr [])] ''adlist.json'' = None" by simp
  have m: "mkdtemp sample_env = ''/tmp/tmpabc''" by (simp add: sample_env_def)
  show ?thesis
    using main_missing_adlist_cleans_up [OF l x f, of "\<lparr>dirs = Map.empty, stdout = []\<rparr>"] m
    by simp
qed

text \<open>
  C5 on the code: \<^verbatim>\<open>unzip_tar_gz\<close> is called before the \<^verbatim>\<open>try\<close>, and creates the
  temporary directory before it opens the archive. When the archive cannot be opened the
  exception leaves \<^verbatim>\<open>main\<close> and the directory is still there.
\<close>

theorem main_extraction_failure_leaves_temp_dir:
  "fst (main sample_env [''convert_config.py'', ''missing.tar.gz''] \<lparr>dirs = Map.empty, stdout = []\<rparr>)
     = Inl TarError
   \<and> dirs (snd (main sample_env [''convert_config.py'', ''missing.tar.gz'']
         \<lparr>dirs = Map.empty, stdout = []\<rparr>)) (mkdtemp sample_env) \<noteq> None"
proof -
  have l: "length [''convert_config.py'', ''missing.tar.gz''] = 2" by simp
  have x: "tar_extract sample_env ([''convert_config.py'', ''missing.tar.gz''] ! 1) = Inl TarError"
    by (simp add: sample_env_def)
  show ?thesis
    using main_extract_fails [OF l x, of "\<lparr>dirs = Map.empty, stdout = []\<rparr>"] by simp
qed

end
